theory Spec2Isabelle
  imports Complex_Main "HOL-Library.Sublist" "HOL-Library.Char_ord" "HOL-Library.List_Lexorder"
    "HOL-Library.Multiset"
begin

section \<open>Kernel trace analysis (scripts/analyze\_kernel\_trace.py)\<close>

text \<open>
  The script walks a profiling directory, reads every kernel trace CSV twice (a counting
  pass, then a windowing pass), derives three numbers per row and writes one CSV per
  output directory. The theory embeds the functions of the script in the order of the
  source file and keeps their names.

  Python strings are modelled as \<^typ>\<open>string\<close>; characters are therefore the code points
  below 256. Python integers are \<^typ>\<open>int\<close>.
\<close>

subsection \<open>Exceptions and diagnostics\<close>

text \<open>
  The exceptions that the embedded code can raise. \<open>KeyError\<close> is the exception that
  \<open>count_occurrences\<close> raises for a missing kernel column (the specification calls it a
  schema error); \<open>OSError\<close> stands for every failure of \<open>open\<close> or \<open>os.listdir\<close> other than
  a missing path.
\<close>

datatype pyerror =
    KeyError
  | FileNotFoundError
  | OSError
  | TypeError
  | ValueError
  | OverflowError
  | ZeroDivisionError

text \<open>
  One constructor per \<open>print(..., file=sys.stderr)\<close> of the script, in the order of the
  source, with the values interpolated into the message as arguments:
  \<^item> \<open>RootNotFound root\<close>: \<^verbatim>\<open>ERROR: root path not found: {root}\<close>
  \<^item> \<open>ListFailed root e\<close>: \<^verbatim>\<open>ERROR: failed to list root '{root}': {e}\<close>
  \<^item> \<open>NoTraceCsv vdir\<close>: \<^verbatim>\<open>WARNING: no *_kernel_trace.csv under {vdir}\<close>
  \<^item> \<open>CountFailed csv_path e\<close>: \<^verbatim>\<open>ERROR: failed counting occurrences in {csv_path}: {e}\<close>
  \<^item> \<open>NoOccurrences match_substring csv_path\<close>:
    \<^verbatim>\<open>WARNING: no occurrences of '{match_substring}' in {csv_path}; skipping\<close>
  \<^item> \<open>ProcessingFailed csv_path e\<close>: \<^verbatim>\<open>ERROR: processing {csv_path}: {e}\<close>
  \<^item> \<open>WriteFailed out_path e\<close>: \<^verbatim>\<open>ERROR: cannot write output file '{out_path}': {e}\<close>
\<close>

datatype diagnostic =
    RootNotFound string
  | ListFailed string pyerror
  | NoTraceCsv string
  | CountFailed string pyerror
  | NoOccurrences string string
  | ProcessingFailed string pyerror
  | WriteFailed string pyerror

subsection \<open>The file system as the script sees it\<close>

text \<open>
  A CSV file is modelled by the records that \<open>csv.reader\<close> delivers for it, one list of
  field strings per record (an empty line delivers the empty record).
\<close>

type_synonym csv_record = "string list"
type_synonym csv_file = "csv_record list"

text \<open>
  The operating-system calls of the script are fields of a record:
  \<open>os.listdir\<close>, \<open>os.path.isdir\<close>, \<open>glob.glob\<close>, \<open>open(path, "r")\<close> followed by
  \<open>csv.reader\<close>, and \<open>open(path, "w")\<close> (\<open>None\<close> when the file can be opened for writing).
  A file that can be opened is read to its end: an error in the middle of a file is not
  modelled, and neither is the failure of a write after the output file has been opened.
\<close>

record world =
  listdir :: "string \<Rightarrow> pyerror + string list"
  isdir :: "string \<Rightarrow> bool"
  glob :: "string \<Rightarrow> string list"
  open_csv :: "string \<Rightarrow> pyerror + csv_file"
  open_write :: "string \<Rightarrow> pyerror option"

subsection \<open>csv.DictReader\<close>

text \<open>
  A row of \<open>csv.DictReader\<close> is a dictionary from field names to values. It is kept as the
  association list in insertion order; a later binding of a key replaces an earlier one,
  as in \<open>dict(zip(fieldnames, row))\<close>. The value \<open>None\<close> is the \<open>restval\<close> that a record
  shorter than the header receives for its missing fields. The surplus fields of a record
  longer than the header are stored by \<open>DictReader\<close> under the key \<open>None\<close>, which no string
  key reads; they are dropped.
\<close>

type_synonym row = "(string \<times> string option) list"

definition fieldnames :: "csv_file \<Rightarrow> string list option" where
  "fieldnames f = (case f of [] \<Rightarrow> None | h # _ \<Rightarrow> Some h)"

definition dict_row :: "string list \<Rightarrow> csv_record \<Rightarrow> row" where
  "dict_row fns r = zip fns (map Some r @ replicate (length fns - length r) None)"

text \<open>Iterating the reader: the first record is the header, empty records are skipped.\<close>

definition dict_rows :: "csv_file \<Rightarrow> row list" where
  "dict_rows f = (case f of [] \<Rightarrow> [] | h # rs \<Rightarrow> map (dict_row h) (filter (\<lambda>r. r \<noteq> []) rs))"

text \<open>
  \<open>row.get(key)\<close>: the outer \<open>None\<close> is an absent key, \<open>Some None\<close> is a key bound to
  Python's \<open>None\<close>.
\<close>

definition row_get :: "row \<Rightarrow> string \<Rightarrow> string option option" where
  "row_get r k = map_of (rev r) k"

text \<open>\<open>row.get(key, default)\<close> returns the default only for an absent key.\<close>

definition row_get_default :: "row \<Rightarrow> string \<Rightarrow> string \<Rightarrow> string option" where
  "row_get_default r k d = (case row_get r k of None \<Rightarrow> Some d | Some v \<Rightarrow> v)"

text \<open>\<open>row.get(key) or ""\<close>: an absent key, \<open>None\<close> and the empty string all give \<open>""\<close>.\<close>

definition get_or_empty :: "row \<Rightarrow> string \<Rightarrow> string" where
  "get_or_empty r k = (case row_get r k of Some (Some v) \<Rightarrow> v | _ \<Rightarrow> [])"

text \<open>\<open>needle in text\<close> on strings.\<close>

fun str_in :: "string \<Rightarrow> string \<Rightarrow> bool" where
  "str_in needle [] = (needle = [])"
| "str_in needle (c # cs) = (prefix needle (c # cs) \<or> str_in needle cs)"

subsection \<open>count\_occurrences\<close>

text \<open>The loop \<open>for row in reader\<close> with the variable \<open>count\<close> (here \<open>count_acc\<close>).\<close>

fun count_loop :: "row list \<Rightarrow> string \<Rightarrow> string \<Rightarrow> int \<Rightarrow> int" where
  "count_loop [] kernel_col match_substring count_acc = count_acc"
| "count_loop (r # rs) kernel_col match_substring count_acc =
     count_loop rs kernel_col match_substring
       (if str_in match_substring (get_or_empty r kernel_col) then count_acc + 1 else count_acc)"

definition count_occurrences :: "world \<Rightarrow> string \<Rightarrow> string \<Rightarrow> string \<Rightarrow> pyerror + int" where
  "count_occurrences w csv_path kernel_col match_substring =
     (case open_csv w csv_path of
        Inl e \<Rightarrow> Inl e
      | Inr f \<Rightarrow>
          (case fieldnames f of
             None \<Rightarrow> Inl KeyError
           | Some fns \<Rightarrow>
               if fns = [] \<or> kernel_col \<notin> set fns then Inl KeyError
               else Inr (count_loop (dict_rows f) kernel_col match_substring 0)))"

subsection \<open>process\_rows\_from\_half\<close>

text \<open>
  The loop of the generator with its two variables \<open>occ_index\<close> and \<open>started\<close>. It returns
  the rows yielded and the value of \<open>occ_index\<close> when the file is exhausted.
\<close>

fun rows_from_half_loop ::
  "row list \<Rightarrow> int \<Rightarrow> string \<Rightarrow> string \<Rightarrow> int \<Rightarrow> bool \<Rightarrow> row list \<times> int" where
  "rows_from_half_loop [] start_occurrence_0based kernel_col match_substring occ_index started =
     ([], occ_index)"
| "rows_from_half_loop (r # rs) start_occurrence_0based kernel_col match_substring occ_index started =
     (let hit = str_in match_substring (get_or_empty r kernel_col);
          started' = (if hit \<and> occ_index = start_occurrence_0based then True else started);
          occ_index' = (if hit then occ_index + 1 else occ_index);
          rest = rows_from_half_loop rs start_occurrence_0based kernel_col match_substring
                   occ_index' started'
      in (if started' then r # fst rest else fst rest, snd rest))"

definition process_rows_from_half ::
  "world \<Rightarrow> string \<Rightarrow> int \<Rightarrow> string \<Rightarrow> string \<Rightarrow> pyerror + row list" where
  "process_rows_from_half w csv_path start_occurrence_0based kernel_col match_substring =
     (case open_csv w csv_path of
        Inl e \<Rightarrow> Inl e
      | Inr f \<Rightarrow>
          Inr (fst (rows_from_half_loop (dict_rows f) start_occurrence_0based kernel_col
                      match_substring 0 False)))"

text \<open>The occurrences that the windowing pass has seen at the end of the file.\<close>

definition occurrences_seen :: "world \<Rightarrow> string \<Rightarrow> int \<Rightarrow> string \<Rightarrow> string \<Rightarrow> pyerror + int" where
  "occurrences_seen w csv_path start_occurrence_0based kernel_col match_substring =
     (case open_csv w csv_path of
        Inl e \<Rightarrow> Inl e
      | Inr f \<Rightarrow>
          Inr (snd (rows_from_half_loop (dict_rows f) start_occurrence_0based kernel_col
                      match_substring 0 False)))"

subsection \<open>Floating-point values\<close>

text \<open>
  A Python \<open>float\<close> is a binary64 value: an infinity, a NaN or a finite number, kept as
  the real that it denotes. The exact result of an arithmetic operation on finite numbers
  is rounded to a binary64 value; this rounding is a parameter \<open>rnd\<close> of the model, which
  stands for rounding to the nearest binary64 value, ties to even, with an infinity as the
  result when the magnitude overflows. The sign of zero is not modelled. Comparison, the
  special values and the exceptions of the operations are as in Python.
\<close>

datatype pyfloat = Fin real | PInf | NInf | NaN

text \<open>\<open>a < b\<close>; every comparison with a NaN is false.\<close>

fun fless :: "pyfloat \<Rightarrow> pyfloat \<Rightarrow> bool" where
  "fless (Fin x) (Fin y) = (x < y)"
| "fless (Fin x) PInf = True"
| "fless NInf (Fin y) = True"
| "fless NInf PInf = True"
| "fless a b = False"

text \<open>The built-ins \<open>max(a, b)\<close> and \<open>min(a, b)\<close> keep the first argument unless the second
  compares strictly beyond it.\<close>

definition py_max :: "pyfloat \<Rightarrow> pyfloat \<Rightarrow> pyfloat" where
  "py_max a b = (if fless a b then b else a)"

definition py_min :: "pyfloat \<Rightarrow> pyfloat \<Rightarrow> pyfloat" where
  "py_min a b = (if fless b a then b else a)"

fun fneg :: "pyfloat \<Rightarrow> pyfloat" where
  "fneg (Fin x) = Fin (- x)"
| "fneg PInf = NInf"
| "fneg NInf = PInf"
| "fneg NaN = NaN"

fun fadd :: "(real \<Rightarrow> pyfloat) \<Rightarrow> pyfloat \<Rightarrow> pyfloat \<Rightarrow> pyfloat" where
  "fadd rnd (Fin x) (Fin y) = rnd (x + y)"
| "fadd rnd NaN b = NaN"
| "fadd rnd a NaN = NaN"
| "fadd rnd PInf NInf = NaN"
| "fadd rnd NInf PInf = NaN"
| "fadd rnd PInf b = PInf"
| "fadd rnd NInf b = NInf"
| "fadd rnd a PInf = PInf"
| "fadd rnd a NInf = NInf"

definition fsub :: "(real \<Rightarrow> pyfloat) \<Rightarrow> pyfloat \<Rightarrow> pyfloat \<Rightarrow> pyfloat" where
  "fsub rnd a b = fadd rnd a (fneg b)"

text \<open>An infinity with the sign of a non-zero real.\<close>

definition inf_of_sign :: "real \<Rightarrow> pyfloat" where
  "inf_of_sign x = (if 0 < x then PInf else NInf)"

fun fmul :: "(real \<Rightarrow> pyfloat) \<Rightarrow> pyfloat \<Rightarrow> pyfloat \<Rightarrow> pyfloat" where
  "fmul rnd (Fin x) (Fin y) = rnd (x * y)"
| "fmul rnd NaN b = NaN"
| "fmul rnd a NaN = NaN"
| "fmul rnd (Fin x) PInf = (if x = 0 then NaN else inf_of_sign x)"
| "fmul rnd (Fin x) NInf = (if x = 0 then NaN else inf_of_sign (- x))"
| "fmul rnd PInf (Fin y) = (if y = 0 then NaN else inf_of_sign y)"
| "fmul rnd NInf (Fin y) = (if y = 0 then NaN else inf_of_sign (- y))"
| "fmul rnd PInf PInf = PInf"
| "fmul rnd NInf NInf = PInf"
| "fmul rnd PInf NInf = NInf"
| "fmul rnd NInf PInf = NInf"

text \<open>\<open>a / b\<close> raises \<open>ZeroDivisionError\<close> for a zero divisor, whatever the dividend.\<close>

fun fdiv :: "(real \<Rightarrow> pyfloat) \<Rightarrow> pyfloat \<Rightarrow> pyfloat \<Rightarrow> pyerror + pyfloat" where
  "fdiv rnd a (Fin y) =
     (if y = 0 then Inl ZeroDivisionError
      else Inr (case a of
                  Fin x \<Rightarrow> rnd (x / y)
                | PInf \<Rightarrow> inf_of_sign y
                | NInf \<Rightarrow> inf_of_sign (- y)
                | NaN \<Rightarrow> NaN))"
| "fdiv rnd NaN b = Inr NaN"
| "fdiv rnd a NaN = Inr NaN"
| "fdiv rnd (Fin x) b = Inr (Fin 0)"
| "fdiv rnd a b = Inr NaN"

text \<open>
  \<open>float(n)\<close> for an integer raises \<open>OverflowError\<close> when \<open>n\<close> rounds to a magnitude of
  \<open>2 ^ 1024\<close> or more, that is from \<open>2 ^ 1024 - 2 ^ 970\<close> on; below, it is \<open>n\<close> rounded.
\<close>

definition float_of_int :: "(real \<Rightarrow> pyfloat) \<Rightarrow> int \<Rightarrow> pyerror + pyfloat" where
  "float_of_int rnd n =
     (if \<bar>n\<bar> < 2 ^ 1024 - 2 ^ 970 then Inr (rnd (of_int n)) else Inl OverflowError)"

subsection \<open>safe\_float and compute\_metrics\<close>

text \<open>
  \<open>float(v)\<close> for a string is a parameter \<open>parse_float\<close> of the model (\<open>None\<close> when it
  raises \<open>ValueError\<close>); \<open>float(None)\<close> raises \<open>TypeError\<close>. \<open>safe_float\<close> catches both.
\<close>

definition safe_float :: "(string \<Rightarrow> pyfloat option) \<Rightarrow> string option \<Rightarrow> pyfloat \<Rightarrow> pyfloat" where
  "safe_float parse_float v dflt =
     (case v of
        None \<Rightarrow> dflt
      | Some s \<Rightarrow> (case parse_float s of None \<Rightarrow> dflt | Some x \<Rightarrow> x))"

definition compute_metrics ::
  "(real \<Rightarrow> pyfloat) \<Rightarrow> (string \<Rightarrow> pyfloat option) \<Rightarrow> row \<Rightarrow> int
     \<Rightarrow> pyerror + (pyfloat \<times> pyfloat \<times> pyfloat)" where
  "compute_metrics rnd parse_float row num_cus =
     (let start_ts = safe_float parse_float (row_get_default row ''Start_Timestamp'' ''0'') (Fin 0);
          end_ts = safe_float parse_float (row_get_default row ''End_Timestamp'' ''0'') (Fin 0);
          wsx = py_max (safe_float parse_float (row_get_default row ''Workgroup_Size_X'' ''0'') (Fin 0)) (Fin 1);
          wsy = py_max (safe_float parse_float (row_get_default row ''Workgroup_Size_Y'' ''0'') (Fin 0)) (Fin 1);
          wsz = py_max (safe_float parse_float (row_get_default row ''Workgroup_Size_Z'' ''0'') (Fin 0)) (Fin 1);
          gsx = safe_float parse_float (row_get_default row ''Grid_Size_X'' ''0'') (Fin 0);
          gsy = safe_float parse_float (row_get_default row ''Grid_Size_Y'' ''0'') (Fin 0);
          gsz = safe_float parse_float (row_get_default row ''Grid_Size_Z'' ''0'') (Fin 0)
      in case fdiv rnd (fsub rnd end_ts start_ts) (Fin 1000) of
           Inl e \<Rightarrow> Inl e
         | Inr time_us \<Rightarrow>
        (case fdiv rnd gsx wsx of
           Inl e \<Rightarrow> Inl e
         | Inr qx \<Rightarrow>
        (case fdiv rnd gsy wsy of
           Inl e \<Rightarrow> Inl e
         | Inr qy \<Rightarrow>
        (case fdiv rnd gsz wsz of
           Inl e \<Rightarrow> Inl e
         | Inr qz \<Rightarrow>
        (let total_workgroups = fmul rnd (fmul rnd qx qy) qz
         in if num_cus \<le> 0 then Inr (time_us, total_workgroups, Fin 0)
            else (case float_of_int rnd num_cus of
                    Inl e \<Rightarrow> Inl e
                  | Inr cus \<Rightarrow>
                 (case fdiv rnd total_workgroups cus of
                    Inl e \<Rightarrow> Inl e
                  | Inr q \<Rightarrow>
                      Inr (time_us, total_workgroups, fmul rnd (py_min q (Fin 1)) (Fin 100)))))))))"

subsection \<open>Paths (posixpath)\<close>

text \<open>\<open>os.path.join(a, b)\<close>: an absolute \<open>b\<close> replaces \<open>a\<close>; otherwise one separator joins them.\<close>

definition path_join :: "string \<Rightarrow> string \<Rightarrow> string" where
  "path_join a b =
     (if prefix ''/'' b then b
      else if a = [] \<or> suffix ''/'' a then a @ b
      else a @ ''/'' @ b)"



subsection \<open>VARIANT\_DIR\_RE and iter\_variant\_dirs\<close>

text \<open>Among the code points below 256, \<open>\d\<close> matches the ten ASCII digits.\<close>

definition is_digit :: "char \<Rightarrow> bool" where
  "is_digit c = (c \<in> set ''0123456789'')"

text \<open>\<open>int(s)\<close> for a string of ASCII digits.\<close>

definition int_of_digits :: "string \<Rightarrow> int" where
  "int_of_digits ds = foldl (\<lambda>acc c. 10 * acc + (of_char c - 48)) 0 ds"

text \<open>
  \<open>VARIANT_DIR_RE.match(name)\<close> for the pattern \<^verbatim>\<open>^p(?P<p>\d+)_ub(?P<ub>\d+)_b(?P<b>\d+)$\<close>,
  with the three groups converted by \<open>int\<close>. Each \<open>\d+\<close> is followed by a character that is
  no digit, so it takes the longest run of digits. Without the \<open>MULTILINE\<close> flag the anchor
  \<open>$\<close> matches at the end of the string and also before a line feed that ends the string.
\<close>

definition variant_dir_match :: "string \<Rightarrow> (int \<times> int \<times> int) option" where
  "variant_dir_match name =
     (if \<not> prefix ''p'' name then None
      else
        let r0 = drop 1 name;
            p = takeWhile is_digit r0;
            r1 = dropWhile is_digit r0
        in if p = [] \<or> \<not> prefix ''_ub'' r1 then None
           else
             let r1' = drop 3 r1;
                 ub = takeWhile is_digit r1';
                 r2 = dropWhile is_digit r1'
             in if ub = [] \<or> \<not> prefix ''_b'' r2 then None
                else
                  let r2' = drop 2 r2;
                      b = takeWhile is_digit r2';
                      r3 = dropWhile is_digit r2'
                  in if b = [] \<or> \<not> (r3 = [] \<or> r3 = [CHR 0x0A]) then None
                     else Some (int_of_digits p, int_of_digits ub, int_of_digits b))"

fun variant_entries :: "world \<Rightarrow> string \<Rightarrow> string list \<Rightarrow> (string \<times> int \<times> int \<times> int) list" where
  "variant_entries w root_dir [] = []"
| "variant_entries w root_dir (name # names) =
     (let full = path_join root_dir name
      in if \<not> isdir w full then variant_entries w root_dir names
         else (case variant_dir_match name of
                 None \<Rightarrow> variant_entries w root_dir names
               | Some (p, ub, b) \<Rightarrow> (full, p, ub, b) # variant_entries w root_dir names))"

text \<open>The tuples yielded by the generator, and what it prints on the error stream.\<close>

definition iter_variant_dirs ::
  "world \<Rightarrow> string \<Rightarrow> (string \<times> int \<times> int \<times> int) list \<times> diagnostic list" where
  "iter_variant_dirs w root_dir =
     (case listdir w root_dir of
        Inl e \<Rightarrow> ([], [if e = FileNotFoundError then RootNotFound root_dir else ListFailed root_dir e])
      | Inr entries \<Rightarrow> (variant_entries w root_dir (sort entries), []))"

subsection \<open>find\_csvs and group\_csvs\_by\_subdir\<close>




subsection \<open>main\<close>

text \<open>
  A field handed to \<open>csv.writer\<close>: a string, an integer, \<open>None\<close> (written as the empty
  field), or a float formatted with a fixed number of decimals (\<open>Fixed 3 x\<close> is
  \<^verbatim>\<open>f"{x:.3f}"\<close>). An output file is the list of the records written to it; its
  bytes are a function of these records.
\<close>

datatype cell = Str string | Num int | PyNone | Fixed nat pyfloat

definition header_row :: "cell list" where
  "header_row = map Str
     [''variant_dir'', ''p'', ''ub'', ''b'', ''csv_path'',
      ''Dispatch_Id'', ''Kernel_Id'', ''Kernel_Name'',
      ''Start_Timestamp'', ''End_Timestamp'', ''time_us'',
      ''Workgroup_Size_X'', ''Workgroup_Size_Y'', ''Workgroup_Size_Z'',
      ''Grid_Size_X'', ''Grid_Size_Y'', ''Grid_Size_Z'',
      ''Total_Workgroups'', ''CU_Utilization_pct'']"

text \<open>\<open>row.get(key, "")\<close> as a field of the output record.\<close>

definition get_cell :: "row \<Rightarrow> string \<Rightarrow> cell" where
  "get_cell r k = (case row_get_default r k [] of None \<Rightarrow> PyNone | Some v \<Rightarrow> Str v)"

definition data_row ::
  "string \<Rightarrow> int \<Rightarrow> int \<Rightarrow> int \<Rightarrow> string \<Rightarrow> row \<Rightarrow> pyfloat \<times> pyfloat \<times> pyfloat \<Rightarrow> cell list" where
  "data_row vdir p ub b csv_path r m =
     (case m of (time_us, total_wg, cu_util_pct) \<Rightarrow>
        [Str vdir, Num p, Num ub, Num b, Str csv_path,
         get_cell r ''Dispatch_Id'', get_cell r ''Kernel_Id'', get_cell r ''Kernel_Name'',
         get_cell r ''Start_Timestamp'', get_cell r ''End_Timestamp'',
         Fixed 3 time_us,
         get_cell r ''Workgroup_Size_X'', get_cell r ''Workgroup_Size_Y'',
         get_cell r ''Workgroup_Size_Z'',
         get_cell r ''Grid_Size_X'', get_cell r ''Grid_Size_Y'', get_cell r ''Grid_Size_Z'',
         Fixed 6 total_wg, Fixed 2 cu_util_pct])"

text \<open>
  The loop \<open>for row in rows_iter\<close>: the records written, and the exception of
  \<open>compute_metrics\<close> that ended the loop, if any.
\<close>

fun write_rows ::
  "(real \<Rightarrow> pyfloat) \<Rightarrow> (string \<Rightarrow> pyfloat option) \<Rightarrow> int \<Rightarrow> string \<Rightarrow> int \<Rightarrow> int \<Rightarrow> int \<Rightarrow> string \<Rightarrow> row list
     \<Rightarrow> cell list list \<times> pyerror option" where
  "write_rows rnd parse_float num_cus vdir p ub b csv_path [] = ([], None)"
| "write_rows rnd parse_float num_cus vdir p ub b csv_path (r # rs) =
     (case compute_metrics rnd parse_float r num_cus of
        Inl e \<Rightarrow> ([], Some e)
      | Inr m \<Rightarrow>
          (let rest = write_rows rnd parse_float num_cus vdir p ub b csv_path rs
           in (data_row vdir p ub b csv_path r m # fst rest, snd rest)))"

text \<open>The body of \<open>for csv_path in files\<close>: the records appended and the diagnostics.\<close>

definition process_file ::
  "(real \<Rightarrow> pyfloat) \<Rightarrow> (string \<Rightarrow> pyfloat option) \<Rightarrow> world \<Rightarrow> int \<Rightarrow> string \<Rightarrow> string \<Rightarrow> int \<Rightarrow> int \<Rightarrow> int \<Rightarrow> string
     \<Rightarrow> cell list list \<times> diagnostic list" where
  "process_file rnd parse_float w num_cus match_substring vdir p ub b csv_path =
     (case count_occurrences w csv_path ''Kernel_Name'' match_substring of
        Inl e \<Rightarrow> ([], [CountFailed csv_path e])
      | Inr total_occ \<Rightarrow>
          if total_occ = 0 then ([], [NoOccurrences match_substring csv_path])
          else
            let start_occ_0 = total_occ div 2
            in (case process_rows_from_half w csv_path start_occ_0 ''Kernel_Name'' match_substring of
                  Inl e \<Rightarrow> ([], [ProcessingFailed csv_path e])
                | Inr rows \<Rightarrow>
                    (case write_rows rnd parse_float num_cus vdir p ub b csv_path rows of
                       (out, None) \<Rightarrow> (out, [])
                     | (out, Some e) \<Rightarrow> (out, [ProcessingFailed csv_path e]))))"

text \<open>
  The body of \<open>for subdir, files in groups.items()\<close>: the output file written (its path and
  its records) unless it cannot be opened, and the diagnostics.
\<close>

definition write_group ::
  "(real \<Rightarrow> pyfloat) \<Rightarrow> (string \<Rightarrow> pyfloat option) \<Rightarrow> world \<Rightarrow> int \<Rightarrow> string \<Rightarrow> string \<Rightarrow> int \<Rightarrow> int \<Rightarrow> int \<Rightarrow> string
     \<Rightarrow> string \<Rightarrow> string list \<Rightarrow> (string \<times> cell list list) option \<times> diagnostic list" where
  "write_group rnd parse_float w num_cus match_substring vdir p ub b variant_name subdir files =
     (let out_path = path_join subdir (variant_name @ ''.csv'')
      in case open_write w out_path of
           Some e \<Rightarrow> (None, [WriteFailed out_path e])
         | None \<Rightarrow>
             (let results = map (process_file rnd parse_float w num_cus match_substring vdir p ub b) files
              in (Some (out_path, header_row # concat (map fst results)),
                  concat (map snd results))))"



section \<open>Notions of the specification and example inputs\<close>

text \<open>A row is a marker occurrence when the marker substring occurs in its kernel field.\<close>

definition marker_row :: "string \<Rightarrow> string \<Rightarrow> row \<Rightarrow> bool" where
  "marker_row kernel_col match_substring r = str_in match_substring (get_or_empty r kernel_col)"

text \<open>The header of a file: the fields of its first record, none for an empty file.\<close>

definition header_fields :: "csv_file \<Rightarrow> string list" where
  "header_fields f = (case fieldnames f of None \<Rightarrow> [] | Some h \<Rightarrow> h)"

text \<open>\<open>a <= b\<close> on floats; false whenever a NaN is involved.\<close>

fun fle :: "pyfloat \<Rightarrow> pyfloat \<Rightarrow> bool" where
  "fle (Fin x) (Fin y) = (x \<le> y)"
| "fle NaN b = False"
| "fle a NaN = False"
| "fle NInf b = True"
| "fle a PInf = True"
| "fle a b = False"

text \<open>
  What the theorems use of rounding to the nearest binary64 value: a result is never a
  NaN; rounding is monotone; 0, 1 and 100 are binary64 values; and a real below
  \<open>2 ^ 1024 - 2 ^ 970\<close> in magnitude has a finite result.
\<close>

definition rounding :: "(real \<Rightarrow> pyfloat) \<Rightarrow> bool" where
  "rounding rnd \<longleftrightarrow>
     (\<forall>x. rnd x \<noteq> NaN) \<and>
     (\<forall>x y. x \<le> y \<longrightarrow> fle (rnd x) (rnd y)) \<and>
     rnd 0 = Fin 0 \<and> rnd 1 = Fin 1 \<and> rnd 100 = Fin 100 \<and>
     (\<forall>x. \<bar>x\<bar> < 2 ^ 1024 - 2 ^ 970 \<longrightarrow> (\<exists>y. rnd x = Fin y))"

text \<open>
  A rounding for the examples: it leaves every real unchanged. Every number that the
  examples compute is a binary64 value (a small integer, or one half), which rounding to
  binary64 leaves unchanged as well.
\<close>

definition round_exact :: "real \<Rightarrow> pyfloat" where
  "round_exact x = Fin x"

text \<open>
  The numeric value of a field in the words of the specification: the parsed value, and
  \<open>0.0\<close> for a field that is missing or does not parse.
\<close>

definition field_or_zero :: "(string \<Rightarrow> pyfloat option) \<Rightarrow> row \<Rightarrow> string \<Rightarrow> pyfloat" where
  "field_or_zero parse_float r k =
     (case row_get r k of
        Some (Some s) \<Rightarrow> (case parse_float s of Some x \<Rightarrow> x | None \<Rightarrow> Fin 0)
      | _ \<Rightarrow> Fin 0)"

text \<open>
  A parser for the examples: on a decimal integer literal with an optional minus sign it
  returns what \<open>float\<close> returns. It rejects every other string; the examples apply it to
  such literals and to strings that \<open>float\<close> rejects as well.
\<close>

definition decimal_float :: "string \<Rightarrow> pyfloat option" where
  "decimal_float s =
     (let ds = (if prefix ''-'' s then drop 1 s else s)
      in if ds \<noteq> [] \<and> list_all is_digit ds
         then Some (Fin (of_int (if prefix ''-'' s then - int_of_digits ds else int_of_digits ds)))
         else None)"

text \<open>
  A trace with five rows; the marker \<open>rms_norm_f32\<close> occurs in the second, fourth and
  fifth row.
\<close>

definition example_trace :: csv_file where
  "example_trace =
     [[''Kernel_Name'', ''Start_Timestamp'', ''End_Timestamp''],
      [''copy'', ''0'', ''1000''],
      [''rms_norm_f32'', ''1000'', ''5000''],
      [''mul_mat'', ''5000'', ''6000''],
      [''rms_norm_f32_vec'', ''6000'', ''7000''],
      [''rms_norm_f32'', ''7000'', ''9000'']]"

definition example_path :: string where
  "example_path = ''/r/p2_ub1_b1/h/1_kernel_trace.csv''"

text \<open>
  A profiling directory \<open>/r\<close> with the variant directory \<open>p2_ub1_b1\<close>, a plain file
  \<open>notes.txt\<close> and the trace above in the subdirectory \<open>h\<close> of the variant directory,
  before any run.
\<close>

definition example_world :: world where
  "example_world = \<lparr>
     listdir = (\<lambda>d. if d = ''/r'' then Inr [''p2_ub1_b1'', ''notes.txt'']
                   else if d = ''/r/p2_ub1_b1'' then Inr [''h'']
                   else if d = ''/r/p2_ub1_b1/h'' then Inr [''1_kernel_trace.csv'']
                   else Inl FileNotFoundError),
     isdir = (\<lambda>p. p = ''/r'' \<or> p = ''/r/p2_ub1_b1'' \<or> p = ''/r/p2_ub1_b1/h''),
     glob = (\<lambda>pat. if pat = ''/r/p2_ub1_b1/*/*_kernel_trace.csv'' then [example_path] else []),
     open_csv = (\<lambda>p. if p = example_path then Inr example_trace else Inl FileNotFoundError),
     open_write = (\<lambda>p. None) \<rparr>"


text \<open>
  A trace whose first row is shorter than the header (its kernel field is missing) and
  whose second row has an empty kernel field.
\<close>

definition short_row_trace :: csv_file where
  "short_row_trace = [[''Dispatch_Id'', ''Kernel_Name''], [''7''], [''8'', '''']]"

definition short_row_world :: world where
  "short_row_world = \<lparr>
     listdir = (\<lambda>d. Inl FileNotFoundError),
     isdir = (\<lambda>p. False),
     glob = (\<lambda>pat. []),
     open_csv = (\<lambda>p. if p = ''t.csv'' then Inr short_row_trace else Inl FileNotFoundError),
     open_write = (\<lambda>p. None) \<rparr>"

text \<open>A directory \<open>/r\<close> whose only entry is a directory named \<open>p1_ub2_b3\<close> plus a line feed.\<close>

definition newline_world :: world where
  "newline_world = \<lparr>
     listdir = (\<lambda>d. if d = ''/r'' then Inr [''p1_ub2_b3'' @ [CHR 0x0A]] else Inl FileNotFoundError),
     isdir = (\<lambda>p. p = ''/r/p1_ub2_b3'' @ [CHR 0x0A]),
     glob = (\<lambda>pat. []),
     open_csv = (\<lambda>p. Inl FileNotFoundError),
     open_write = (\<lambda>p. None) \<rparr>"

text \<open>A row with a negative grid size, and the row of the scenarios of the specification.\<close>

definition negative_grid_row :: row where
  "negative_grid_row =
     [(''Kernel_Name'', Some ''rms_norm_f32''), (''Grid_Size_X'', Some ''-256''),
      (''Grid_Size_Y'', Some ''1''), (''Grid_Size_Z'', Some ''1'')]"

definition scenario_row :: row where
  "scenario_row =
     [(''Kernel_Name'', Some ''rms_norm_f32''),
      (''Start_Timestamp'', Some ''1000''), (''End_Timestamp'', Some ''5000''),
      (''Workgroup_Size_X'', Some ''0''), (''Workgroup_Size_Y'', Some ''0''),
      (''Workgroup_Size_Z'', Some ''0''),
      (''Grid_Size_X'', Some ''256''), (''Grid_Size_Y'', Some ''1''), (''Grid_Size_Z'', Some ''1'')]"



section \<open>The two passes over a trace file\<close>

subsection \<open>Substring test and counting loop\<close>

lemma str_in_iff: "str_in needle s \<longleftrightarrow> (\<exists>pre post. s = pre @ needle @ post)"
proof (induction s)
  case Nil
  then show ?case by auto
next
  case (Cons c cs)
  show ?case
  proof
    assume "str_in needle (c # cs)"
    then consider "prefix needle (c # cs)" | "str_in needle cs" by auto
    then show "\<exists>pre post. c # cs = pre @ needle @ post"
    proof cases
      case 1
      then obtain post where "c # cs = needle @ post" by (auto simp: prefix_def)
      then have "c # cs = [] @ needle @ post" by simp
      then show ?thesis by blast
    next
      case 2
      with Cons.IH obtain pre post where "cs = pre @ needle @ post" by blast
      then have "c # cs = (c # pre) @ needle @ post" by simp
      then show ?thesis by blast
    qed
  next
    assume "\<exists>pre post. c # cs = pre @ needle @ post"
    then obtain pre post where eq: "c # cs = pre @ needle @ post" by blast
    show "str_in needle (c # cs)"
    proof (cases pre)
      case Nil
      with eq have "prefix needle (c # cs)" by (simp add: prefix_def)
      then show ?thesis by simp
    next
      case (Cons a pre')
      with eq have "cs = pre' @ needle @ post" by simp
      with Cons.IH have "str_in needle cs" by blast
      then show ?thesis by simp
    qed
  qed
qed

text \<open>The test is case-sensitive: it compares characters.\<close>

lemma str_in_case_sensitive: "\<not> str_in ''rms'' ''RMS_NORM''"
  by simp

lemma marker_row_nonempty:
  assumes "match_substring \<noteq> []"
  shows "marker_row kernel_col match_substring r \<longleftrightarrow>
    (\<exists>v. row_get r kernel_col = Some (Some v) \<and> v \<noteq> [] \<and>
         (\<exists>pre post. v = pre @ match_substring @ post))"
proof -
  have "\<not> str_in match_substring []" using assms by simp
  then show ?thesis
    by (auto simp: marker_row_def get_or_empty_def str_in_iff split: option.splits)
qed

lemma count_loop_filter:
  "count_loop rows kernel_col match_substring c =
     c + int (length (filter (marker_row kernel_col match_substring) rows))"
  by (induction rows arbitrary: c) (simp_all add: marker_row_def)

lemma count_occurrences_Inr:
  assumes "open_csv w csv_path = Inr f" and "kernel_col \<in> set (header_fields f)"
  shows "count_occurrences w csv_path kernel_col match_substring =
           Inr (int (length (filter (marker_row kernel_col match_substring) (dict_rows f))))"
proof -
  from assms(2) obtain h where h: "fieldnames f = Some h" "kernel_col \<in> set h"
    by (cases "fieldnames f") (simp_all add: header_fields_def)
  then have "h \<noteq> []" by auto
  with h assms(1) show ?thesis
    by (simp add: count_occurrences_def count_loop_filter)
qed

lemma count_occurrences_Inl:
  assumes "open_csv w csv_path = Inr f" and "kernel_col \<notin> set (header_fields f)"
  shows "count_occurrences w csv_path kernel_col match_substring = Inl KeyError"
  using assms
  by (cases "fieldnames f") (simp_all add: count_occurrences_def header_fields_def)

lemma count_occurrences_value:
  assumes "open_csv w csv_path = Inr f"
    and "count_occurrences w csv_path kernel_col match_substring = Inr n"
  shows "n = int (length (filter (marker_row kernel_col match_substring) (dict_rows f)))"
proof (cases "kernel_col \<in> set (header_fields f)")
  case True
  from count_occurrences_Inr [OF assms(1) True, of match_substring] assms(2) show ?thesis by simp
next
  case False
  from count_occurrences_Inl [OF assms(1) False, of match_substring] assms(2) show ?thesis by simp
qed

subsection \<open>The loop of the windowing pass\<close>

lemma loop_snd:
  "snd (rows_from_half_loop rows s kernel_col match_substring occ started) =
     occ + int (length (filter (marker_row kernel_col match_substring) rows))"
  by (induction rows arbitrary: occ started) (simp_all add: marker_row_def Let_def)

lemma loop_started:
  "fst (rows_from_half_loop rows s kernel_col match_substring occ True) = rows"
  by (induction rows arbitrary: occ) (simp_all add: Let_def)

lemma loop_never_starts:
  "s < occ \<or> occ + int (length (filter (marker_row kernel_col match_substring) rows)) \<le> s \<Longrightarrow>
   fst (rows_from_half_loop rows s kernel_col match_substring occ False) = []"
proof (induction rows arbitrary: occ)
  case Nil
  then show ?case by simp
next
  case (Cons r rs)
  show ?case
  proof (cases "marker_row kernel_col match_substring r")
    case True
    with Cons.prems have ne: "occ \<noteq> s" and
      nxt: "s < occ + 1 \<or> (occ + 1) + int (length (filter (marker_row kernel_col match_substring) rs)) \<le> s"
      by auto
    from Cons.IH [OF nxt] True ne show ?thesis
      by (simp add: Let_def marker_row_def)
  next
    case False
    with Cons.prems have
      "s < occ \<or> occ + int (length (filter (marker_row kernel_col match_substring) rs)) \<le> s"
      by auto
    from Cons.IH [OF this] False show ?thesis
      by (simp add: Let_def marker_row_def)
  qed
qed

lemma loop_window:
  "occ \<le> s \<Longrightarrow> s < occ + int (length (filter (marker_row kernel_col match_substring) rows)) \<Longrightarrow>
   \<exists>k. k < length rows \<and>
     marker_row kernel_col match_substring (rows ! k) \<and>
     occ + int (length (filter (marker_row kernel_col match_substring) (take k rows))) = s \<and>
     fst (rows_from_half_loop rows s kernel_col match_substring occ False) = drop k rows"
proof (induction rows arbitrary: occ)
  case Nil
  then show ?case by simp
next
  case (Cons r rs)
  let ?hit = "marker_row kernel_col match_substring"
  show ?case
  proof (cases "?hit r")
    case True
    show ?thesis
    proof (cases "occ = s")
      case eq: True
      have "fst (rows_from_half_loop (r # rs) s kernel_col match_substring occ False) = r # rs"
        using True eq by (simp add: Let_def marker_row_def loop_started)
      with True eq have "0 < length (r # rs) \<and> ?hit ((r # rs) ! 0) \<and>
          occ + int (length (filter ?hit (take 0 (r # rs)))) = s \<and>
          fst (rows_from_half_loop (r # rs) s kernel_col match_substring occ False) = drop 0 (r # rs)"
        by simp
      then show ?thesis by blast
    next
      case ne: False
      with Cons.prems True have a: "occ + 1 \<le> s" and
        b: "s < (occ + 1) + int (length (filter ?hit rs))" by auto
      from Cons.IH [OF a b] obtain k where k: "k < length rs" "?hit (rs ! k)"
        "(occ + 1) + int (length (filter ?hit (take k rs))) = s"
        "fst (rows_from_half_loop rs s kernel_col match_substring (occ + 1) False) = drop k rs"
        by blast
      have "fst (rows_from_half_loop (r # rs) s kernel_col match_substring occ False) = drop (Suc k) (r # rs)"
        using True ne k(4) by (simp add: Let_def marker_row_def)
      with k True have "Suc k < length (r # rs) \<and> ?hit ((r # rs) ! Suc k) \<and>
          occ + int (length (filter ?hit (take (Suc k) (r # rs)))) = s \<and>
          fst (rows_from_half_loop (r # rs) s kernel_col match_substring occ False) = drop (Suc k) (r # rs)"
        by simp
      then show ?thesis by blast
    qed
  next
    case False
    with Cons.prems have a: "occ \<le> s" and
      b: "s < occ + int (length (filter ?hit rs))" by auto
    from Cons.IH [OF a b] obtain k where k: "k < length rs" "?hit (rs ! k)"
      "occ + int (length (filter ?hit (take k rs))) = s"
      "fst (rows_from_half_loop rs s kernel_col match_substring occ False) = drop k rs"
      by blast
    have "fst (rows_from_half_loop (r # rs) s kernel_col match_substring occ False) = drop (Suc k) (r # rs)"
      using False k(4) by (simp add: Let_def marker_row_def)
    with k False have "Suc k < length (r # rs) \<and> ?hit ((r # rs) ! Suc k) \<and>
        occ + int (length (filter ?hit (take (Suc k) (r # rs)))) = s \<and>
        fst (rows_from_half_loop (r # rs) s kernel_col match_substring occ False) = drop (Suc k) (r # rs)"
      by simp
    then show ?thesis by blast
  qed
qed

lemma loop_suffix:
  "suffix (fst (rows_from_half_loop rows s kernel_col match_substring occ started)) rows"
proof (induction rows arbitrary: occ started)
  case Nil
  then show ?case by simp
next
  case (Cons r rs)
  let ?hit = "marker_row kernel_col match_substring r"
  let ?st = "if ?hit \<and> occ = s then True else started"
  let ?occ = "if ?hit then occ + 1 else occ"
  show ?case
  proof (cases ?st)
    case True
    then have "fst (rows_from_half_loop (r # rs) s kernel_col match_substring occ started) = r # rs"
      by (auto simp: Let_def marker_row_def loop_started)
    then show ?thesis by simp
  next
    case False
    then have ns: "\<not> started" by (simp split: if_splits)
    from False ns have "fst (rows_from_half_loop (r # rs) s kernel_col match_substring occ started) =
        fst (rows_from_half_loop rs s kernel_col match_substring ?occ started)"
      by (auto simp: Let_def marker_row_def split: if_splits)
    with Cons.IH [of ?occ started] show ?thesis
      by (simp add: suffix_ConsI)
  qed
qed

subsection \<open>The example trace\<close>

lemma example_open: "open_csv example_world example_path = Inr example_trace"
  by (simp add: example_world_def)

lemma example_header:
  "header_fields example_trace = [''Kernel_Name'', ''Start_Timestamp'', ''End_Timestamp'']"
  by (simp add: header_fields_def fieldnames_def example_trace_def)

lemma example_occurrences:
  "int (length (filter (marker_row ''Kernel_Name'' ''rms_norm_f32'') (dict_rows example_trace))) = 3"
  by (simp add: marker_row_def example_trace_def dict_rows_def dict_row_def get_or_empty_def
      row_get_def)

lemma example_count:
  "count_occurrences example_world example_path ''Kernel_Name'' ''rms_norm_f32'' = Inr 3"
  by (simp add: count_occurrences_Inr [OF example_open] example_header example_occurrences)


subsection \<open>Claims about the counting pass and the windowing pass\<close>

text \<open>
  Claim C6, as stated, fails for the empty marker substring: the empty string occurs in
  every string, and a missing kernel field is read as the empty string, so rows with an
  empty or a missing kernel field are counted. In the trace below both rows are of this
  kind and both are counted.
\<close>

theorem count_occurrences_empty_marker_counterexample:
  "dict_rows short_row_trace =
     [[(''Dispatch_Id'', Some ''7''), (''Kernel_Name'', None)],
      [(''Dispatch_Id'', Some ''8''), (''Kernel_Name'', Some [])]] \<and>
   open_csv short_row_world ''t.csv'' = Inr short_row_trace \<and>
   count_occurrences short_row_world ''t.csv'' ''Kernel_Name'' [] = Inr 2"
  by (simp add: count_occurrences_def short_row_world_def short_row_trace_def fieldnames_def
      dict_rows_def dict_row_def get_or_empty_def row_get_def)

text \<open>
  Claim C6, amended. For a trace file that can be read, \<open>count_occurrences\<close> raises
  \<open>KeyError\<close> (the schema error) exactly when the kernel column is absent from the header
  of the file, an empty file having no header. Otherwise it returns the number of rows in
  whose kernel field the marker substring occurs, by exact comparison of characters, where
  a missing field is read as the empty string. For a marker substring that is not empty
  these are the rows that have a kernel field that is not empty and contains the marker:
  an empty or missing field is no match.
\<close>

theorem count_occurrences_contract:
  assumes "open_csv w csv_path = Inr f"
  shows "(kernel_col \<notin> set (header_fields f) \<longrightarrow>
            count_occurrences w csv_path kernel_col match_substring = Inl KeyError) \<and>
         (kernel_col \<in> set (header_fields f) \<longrightarrow>
            count_occurrences w csv_path kernel_col match_substring =
              Inr (int (length (filter (\<lambda>r. \<exists>pre post. get_or_empty r kernel_col = pre @ match_substring @ post)
                                  (dict_rows f))))) \<and>
         (kernel_col \<in> set (header_fields f) \<and> match_substring \<noteq> [] \<longrightarrow>
            count_occurrences w csv_path kernel_col match_substring =
              Inr (int (length (filter (\<lambda>r. \<exists>v. row_get r kernel_col = Some (Some v) \<and> v \<noteq> [] \<and>
                                             (\<exists>pre post. v = pre @ match_substring @ post))
                                  (dict_rows f)))))"
proof -
  have a: "marker_row kernel_col match_substring =
      (\<lambda>r. \<exists>pre post. get_or_empty r kernel_col = pre @ match_substring @ post)"
    by (rule ext) (simp add: marker_row_def str_in_iff)
  have b: "match_substring \<noteq> [] \<Longrightarrow> marker_row kernel_col match_substring =
      (\<lambda>r. \<exists>v. row_get r kernel_col = Some (Some v) \<and> v \<noteq> [] \<and>
                (\<exists>pre post. v = pre @ match_substring @ post))"
    by (rule ext) (rule marker_row_nonempty)
  show ?thesis
    using count_occurrences_Inl [OF assms, of kernel_col match_substring]
      count_occurrences_Inr [OF assms, of kernel_col match_substring] a b
    by auto
qed

text \<open>
  The amended claim C6 on the example trace: the column \<open>Kernel\<close> is not in the header,
  the column \<open>Kernel_Name\<close> is.
\<close>

theorem count_occurrences_contract_witness:
  "open_csv example_world example_path = Inr example_trace \<and>
   ''Kernel'' \<notin> set (header_fields example_trace) \<and>
   ''Kernel_Name'' \<in> set (header_fields example_trace) \<and>
   ''rms_norm_f32'' \<noteq> [] \<and>
   count_occurrences example_world example_path ''Kernel'' ''rms_norm_f32'' = Inl KeyError \<and>
   count_occurrences example_world example_path ''Kernel_Name'' ''rms_norm_f32'' =
     Inr (int (length (filter (\<lambda>r. \<exists>v. row_get r ''Kernel_Name'' = Some (Some v) \<and> v \<noteq> [] \<and>
                                    (\<exists>pre post. v = pre @ ''rms_norm_f32'' @ post))
                         (dict_rows example_trace))))"
proof -
  have h1: "''Kernel'' \<notin> set (header_fields example_trace)"
    by (simp add: example_header)
  have h2: "''Kernel_Name'' \<in> set (header_fields example_trace)"
    by (simp add: example_header)
  have ne: "''rms_norm_f32'' \<noteq> []" by simp
  from count_occurrences_contract [OF example_open, of "''Kernel''" "''rms_norm_f32''"] h1
  have a: "count_occurrences example_world example_path ''Kernel'' ''rms_norm_f32'' = Inl KeyError"
    by blast
  from count_occurrences_contract [OF example_open, of "''Kernel_Name''" "''rms_norm_f32''"] h2 ne
  have b: "count_occurrences example_world example_path ''Kernel_Name'' ''rms_norm_f32'' =
     Inr (int (length (filter (\<lambda>r. \<exists>v. row_get r ''Kernel_Name'' = Some (Some v) \<and> v \<noteq> [] \<and>
                                    (\<exists>pre post. v = pre @ ''rms_norm_f32'' @ post))
                         (dict_rows example_trace))))"
    by blast
  from example_open h1 h2 ne a b show ?thesis by blast
qed

text \<open>
  Claim C5. For a trace file that can be read and a start index \<open>s\<close> below the number of
  marker occurrences, \<open>process_rows_from_half\<close> yields the rows of the file from row \<open>k\<close>
  to the end, in file order, where row \<open>k\<close> is a marker occurrence and exactly \<open>s\<close>
  occurrences precede it: the row at which occurrence \<open>s\<close>, counted from zero, is seen.
\<close>

theorem process_rows_from_half_window:
  assumes "open_csv w csv_path = Inr f"
    and "0 \<le> s"
    and "s < int (length (filter (marker_row kernel_col match_substring) (dict_rows f)))"
  shows "\<exists>k. k < length (dict_rows f) \<and>
           marker_row kernel_col match_substring (dict_rows f ! k) \<and>
           int (length (filter (marker_row kernel_col match_substring) (take k (dict_rows f)))) = s \<and>
           process_rows_from_half w csv_path s kernel_col match_substring = Inr (drop k (dict_rows f))"
  using loop_window [of 0 s kernel_col match_substring "dict_rows f"] assms
  by (simp add: process_rows_from_half_def)

text \<open>Claim C5 on the example trace with start index 1.\<close>

theorem process_rows_from_half_window_witness:
  "open_csv example_world example_path = Inr example_trace \<and>
   (0::int) \<le> 1 \<and>
   1 < int (length (filter (marker_row ''Kernel_Name'' ''rms_norm_f32'') (dict_rows example_trace))) \<and>
   (\<exists>k. k < length (dict_rows example_trace) \<and>
        marker_row ''Kernel_Name'' ''rms_norm_f32'' (dict_rows example_trace ! k) \<and>
        int (length (filter (marker_row ''Kernel_Name'' ''rms_norm_f32'')
                       (take k (dict_rows example_trace)))) = 1 \<and>
        process_rows_from_half example_world example_path 1 ''Kernel_Name'' ''rms_norm_f32'' =
          Inr (drop k (dict_rows example_trace)))"
proof -
  have a: "(0::int) \<le> 1" by simp
  have b: "1 < int (length (filter (marker_row ''Kernel_Name'' ''rms_norm_f32'')
                              (dict_rows example_trace)))"
    by (simp add: example_occurrences)
  from process_rows_from_half_window [OF example_open a b] example_open a b
  show ?thesis by blast
qed

text \<open>
  Claim C7. When the counting pass over a trace file returns \<open>n\<close>, the windowing pass over
  the same file has seen \<open>n\<close> occurrences at the end of the file, whatever its start index,
  and the rows it yields are a final segment of the rows read from the file, unchanged.
\<close>

theorem passes_agree:
  assumes "open_csv w csv_path = Inr f"
    and "count_occurrences w csv_path kernel_col match_substring = Inr n"
  shows "occurrences_seen w csv_path s kernel_col match_substring = Inr n \<and>
         (\<exists>rows. process_rows_from_half w csv_path s kernel_col match_substring = Inr rows \<and>
                 suffix rows (dict_rows f))"
  using count_occurrences_value [OF assms] assms(1)
  by (simp add: occurrences_seen_def process_rows_from_half_def loop_snd loop_suffix)

text \<open>Claim C7 on the example trace: both passes see three occurrences.\<close>

theorem passes_agree_witness:
  "open_csv example_world example_path = Inr example_trace \<and>
   count_occurrences example_world example_path ''Kernel_Name'' ''rms_norm_f32'' = Inr 3 \<and>
   occurrences_seen example_world example_path 1 ''Kernel_Name'' ''rms_norm_f32'' = Inr 3 \<and>
   (\<exists>rows. process_rows_from_half example_world example_path 1 ''Kernel_Name'' ''rms_norm_f32'' =
             Inr rows \<and> suffix rows (dict_rows example_trace))"
  using passes_agree [OF example_open example_count, of 1] example_open example_count
  by blast

text \<open>
  Claim C10. For a trace file that can be read and a start index that is at least the
  number of marker occurrences in the file, \<open>process_rows_from_half\<close> raises nothing and
  yields no row; in particular it yields no row for a file without any occurrence.
\<close>

theorem process_rows_from_half_beyond:
  assumes "open_csv w csv_path = Inr f"
    and "int (length (filter (marker_row kernel_col match_substring) (dict_rows f))) \<le> s"
  shows "process_rows_from_half w csv_path s kernel_col match_substring = Inr []"
  using loop_never_starts [of s 0 kernel_col match_substring "dict_rows f"] assms
  by (simp add: process_rows_from_half_def)

text \<open>Claim C10 on the example trace, which has three occurrences, with start index 3.\<close>

theorem process_rows_from_half_beyond_witness:
  "open_csv example_world example_path = Inr example_trace \<and>
   int (length (filter (marker_row ''Kernel_Name'' ''rms_norm_f32'') (dict_rows example_trace))) \<le> 3 \<and>
   process_rows_from_half example_world example_path 3 ''Kernel_Name'' ''rms_norm_f32'' = Inr []"
proof -
  have a: "int (length (filter (marker_row ''Kernel_Name'' ''rms_norm_f32'')
                          (dict_rows example_trace))) \<le> 3"
    by (simp add: example_occurrences)
  from process_rows_from_half_beyond [OF example_open a] example_open a
  show ?thesis by blast
qed

section \<open>The derived metrics\<close>

subsection \<open>Divisors and fields\<close>

text \<open>A workgroup size passed through \<open>max(v, 1.0)\<close> is never zero, so no division fails.\<close>

lemma py_max_one_nonzero: "py_max a (Fin 1) \<noteq> Fin 0"
  by (cases a) (auto simp: py_max_def)

text \<open>It is at least 1, except that a NaN stays a NaN.\<close>

lemma py_max_one_floor: "a \<noteq> NaN \<Longrightarrow> fle (Fin 1) (py_max a (Fin 1))"
  by (cases a) (auto simp: py_max_def)

lemma py_max_one_nan: "py_max NaN (Fin 1) = NaN"
  by (simp add: py_max_def)

lemma py_max_one_finite: "py_max (Fin v) (Fin 1) = Fin (max v 1)"
  by (simp add: py_max_def max_def)

lemma fdiv_nonzero: "b \<noteq> Fin 0 \<Longrightarrow> \<exists>q. fdiv rnd a b = Inr q"
  by (cases a; cases b) auto

lemma fdiv_finite: "y \<noteq> 0 \<Longrightarrow> fdiv rnd (Fin x) (Fin y) = Inr (rnd (x / y))"
  by simp

lemma safe_float_field:
  assumes "parse_float ''0'' = Some (Fin 0)"
  shows "safe_float parse_float (row_get_default r k ''0'') (Fin 0) = field_or_zero parse_float r k"
  using assms
  by (auto simp: safe_float_def row_get_default_def field_or_zero_def split: option.splits)

subsection \<open>Rounding\<close>

lemma rounding_exact: "rounding round_exact"
  by (simp add: rounding_def round_exact_def)

lemma rounding_not_nan: "rounding rnd \<Longrightarrow> rnd x \<noteq> NaN"
  by (simp add: rounding_def)

lemma rounding_nonneg:
  assumes "rounding rnd" and "0 \<le> x"
  shows "fle (Fin 0) (rnd x)"
proof -
  from assms have "fle (rnd 0) (rnd x)" unfolding rounding_def by blast
  with assms(1) show ?thesis by (simp add: rounding_def)
qed

lemma rounding_at_most_100:
  assumes "rounding rnd" and "x \<le> 100"
  shows "fle (rnd x) (Fin 100)"
proof -
  from assms have "fle (rnd x) (rnd 100)" unfolding rounding_def by blast
  with assms(1) show ?thesis by (simp add: rounding_def)
qed

text \<open>
  Below the threshold of \<open>OverflowError\<close>, \<open>float(n)\<close> of a positive integer is a finite
  number that is at least 1.
\<close>

lemma float_of_int_positive:
  assumes "rounding rnd" and "0 < n" and "n < 2 ^ 1024 - 2 ^ 970"
  shows "\<exists>c. float_of_int rnd n = Inr (Fin c) \<and> rnd (of_int n) = Fin c \<and> 1 \<le> c"
proof -
  from assms(2,3) have "\<bar>n\<bar> < 2 ^ 1024 - 2 ^ 970" by simp
  then have f: "float_of_int rnd n = Inr (rnd (of_int n))" by (simp add: float_of_int_def)
  from assms(3) have "real_of_int n < real_of_int (2 ^ 1024 - 2 ^ 970)"
    by (simp only: of_int_less_iff)
  with assms(2) have "\<bar>real_of_int n\<bar> < 2 ^ 1024 - 2 ^ 970" by simp
  with assms(1) obtain c where c: "rnd (of_int n) = Fin c" unfolding rounding_def by blast
  from assms(2) have "(1::real) \<le> of_int n" by simp
  with assms(1) have "fle (rnd 1) (rnd (of_int n))" unfolding rounding_def by blast
  with assms(1) c have "1 \<le> c" by (simp add: rounding_def)
  with f c show ?thesis by simp
qed

subsection \<open>The utilization\<close>

lemma compute_metrics_InrD:
  assumes "compute_metrics rnd parse_float r num_cus = Inr (time_us, total_wg, cu)"
  shows "(num_cus \<le> 0 \<and> cu = Fin 0) \<or>
         (0 < num_cus \<and> \<bar>num_cus\<bar> < 2 ^ 1024 - 2 ^ 970 \<and>
          (\<exists>q. fdiv rnd total_wg (rnd (of_int num_cus)) = Inr q \<and>
               cu = fmul rnd (py_min q (Fin 1)) (Fin 100)))"
  using assms
  by (auto simp: compute_metrics_def Let_def float_of_int_def split: sum.splits if_splits)

lemma quotient_not_nan:
  assumes "rounding rnd" and "c \<noteq> 0" and "fdiv rnd wg (Fin c) = Inr q" and "wg \<noteq> NaN"
  shows "q \<noteq> NaN"
  using assms by (cases wg) (auto simp: inf_of_sign_def rounding_not_nan split: if_splits)

lemma quotient_nonneg:
  assumes "rounding rnd" and "0 < c" and "fdiv rnd wg (Fin c) = Inr q" and "fle (Fin 0) wg"
  shows "fle (Fin 0) q"
  using assms by (cases wg) (auto simp: inf_of_sign_def rounding_nonneg split: if_splits)

lemma capped_upper:
  assumes "rounding rnd" and "q \<noteq> NaN"
  shows "fle (fmul rnd (py_min q (Fin 1)) (Fin 100)) (Fin 100)"
proof (cases q)
  case (Fin z)
  show ?thesis
  proof (cases "1 < z")
    case True
    with Fin assms(1) show ?thesis by (simp add: py_min_def rounding_def)
  next
    case False
    then have "z * 100 \<le> 100" by simp
    from rounding_at_most_100 [OF assms(1) this] Fin False show ?thesis
      by (simp add: py_min_def)
  qed
next
  case PInf
  with assms(1) show ?thesis by (simp add: py_min_def rounding_def)
next
  case NInf
  then show ?thesis by (simp add: py_min_def inf_of_sign_def)
next
  case NaN
  with assms(2) show ?thesis by simp
qed

lemma capped_lower:
  assumes "rounding rnd" and "fle (Fin 0) q"
  shows "fle (Fin 0) (fmul rnd (py_min q (Fin 1)) (Fin 100))"
proof (cases q)
  case (Fin z)
  show ?thesis
  proof (cases "1 < z")
    case True
    with Fin assms(1) show ?thesis by (simp add: py_min_def rounding_def)
  next
    case False
    from Fin assms(2) have "0 \<le> z * 100" by simp
    from rounding_nonneg [OF assms(1) this] Fin False show ?thesis
      by (simp add: py_min_def)
  qed
next
  case PInf
  with assms(1) show ?thesis by (simp add: py_min_def rounding_def)
next
  case NInf
  with assms(2) show ?thesis by simp
next
  case NaN
  with assms(2) show ?thesis by simp
qed

subsection \<open>The example parser and the example rows\<close>

lemma decimal_float_0: "decimal_float ''0'' = Some (Fin 0)"
  by (simp add: decimal_float_def is_digit_def int_of_digits_def)

lemma decimal_float_1: "decimal_float ''1'' = Some (Fin 1)"
  by (simp add: decimal_float_def is_digit_def int_of_digits_def)

lemma decimal_float_2: "decimal_float ''2'' = Some (Fin 2)"
  by (simp add: decimal_float_def is_digit_def int_of_digits_def)

lemma decimal_float_256: "decimal_float ''256'' = Some (Fin 256)"
  by (simp add: decimal_float_def is_digit_def int_of_digits_def)

lemma decimal_float_minus_256: "decimal_float ''-256'' = Some (Fin (- 256))"
  by (simp add: decimal_float_def is_digit_def int_of_digits_def)

lemma decimal_float_1000: "decimal_float ''1000'' = Some (Fin 1000)"
  by (simp add: decimal_float_def is_digit_def int_of_digits_def)

lemma decimal_float_5000: "decimal_float ''5000'' = Some (Fin 5000)"
  by (simp add: decimal_float_def is_digit_def int_of_digits_def)

lemma decimal_float_rejects: "decimal_float ''abc'' = None" "decimal_float [] = None"
  by (simp_all add: decimal_float_def is_digit_def)

lemmas decimal_float_examples =
  decimal_float_0 decimal_float_1 decimal_float_2 decimal_float_256 decimal_float_minus_256
  decimal_float_1000 decimal_float_5000


lemma float_of_int_128: "float_of_int round_exact 128 = Inr (Fin 128)"
  by (simp add: float_of_int_def round_exact_def)

text \<open>
  Scenarios B and E of the specification in one row: timestamps 1000 and 5000, workgroup
  sizes \<open>(0, 0, 0)\<close> and grid sizes \<open>(256, 1, 1)\<close>; with 128 compute units the utilization
  is capped at 100, as in scenario C.
\<close>

lemma scenario_metrics:
  "compute_metrics round_exact decimal_float scenario_row 128 = Inr (Fin 4, Fin 256, Fin 100)"
  by (simp add: compute_metrics_def scenario_row_def row_get_default_def row_get_def
      safe_float_def decimal_float_examples py_max_def py_min_def fsub_def float_of_int_128
      round_exact_def Let_def)

lemma scenario_metrics_no_cus:
  "compute_metrics round_exact decimal_float scenario_row 0 = Inr (Fin 4, Fin 256, Fin 0)"
  by (simp add: compute_metrics_def scenario_row_def row_get_default_def row_get_def
      safe_float_def decimal_float_examples py_max_def py_min_def fsub_def round_exact_def Let_def)

lemma scenario_fields:
  "field_or_zero decimal_float scenario_row ''Start_Timestamp'' = Fin 1000"
  "field_or_zero decimal_float scenario_row ''End_Timestamp'' = Fin 5000"
  "field_or_zero decimal_float scenario_row ''Grid_Size_X'' = Fin 256"
  "field_or_zero decimal_float scenario_row ''Grid_Size_Y'' = Fin 1"
  "field_or_zero decimal_float scenario_row ''Grid_Size_Z'' = Fin 1"
  "field_or_zero decimal_float scenario_row ''Workgroup_Size_X'' = Fin 0"
  "field_or_zero decimal_float scenario_row ''Workgroup_Size_Y'' = Fin 0"
  "field_or_zero decimal_float scenario_row ''Workgroup_Size_Z'' = Fin 0"
  by (simp_all add: field_or_zero_def scenario_row_def row_get_def decimal_float_examples)

text \<open>A quotient is not truncated: one grid element for a workgroup of two is half a workgroup.\<close>

lemma half_workgroup:
  "compute_metrics round_exact decimal_float
     [(''Grid_Size_X'', Some ''1''), (''Grid_Size_Y'', Some ''1''), (''Grid_Size_Z'', Some ''1''),
      (''Workgroup_Size_X'', Some ''2'')] 0 = Inr (Fin 0, Fin (1 / 2), Fin 0)"
  by (simp add: compute_metrics_def row_get_default_def row_get_def
      safe_float_def decimal_float_examples py_max_def py_min_def fsub_def round_exact_def Let_def)

subsection \<open>Claims about compute\_metrics\<close>

text \<open>
  Claim C3, as stated, fails: the utilization is capped at 100 but has no lower cap. A
  row with the grid sizes \<open>(-256, 1, 1)\<close> and 128 compute units has a total of \<open>-256\<close>
  workgroups and a utilization of \<open>-200\<close> percent.
\<close>

theorem cu_utilization_negative_counterexample:
  "compute_metrics round_exact decimal_float negative_grid_row 128 =
     Inr (Fin 0, Fin (- 256), Fin (- 200)) \<and>
   \<not> fle (Fin 0) (Fin (- 200))"
  by (simp add: compute_metrics_def negative_grid_row_def row_get_default_def row_get_def
      safe_float_def decimal_float_examples py_max_def py_min_def fsub_def float_of_int_128
      round_exact_def Let_def)

text \<open>
  Claim C3, amended. Whenever \<open>compute_metrics\<close> returns: the utilization is exactly 0
  for \<open>num_cus \<le> 0\<close>; for \<open>num_cus > 0\<close> it is at most 100 unless the total of workgroups
  is a NaN, whatever the magnitude of the total; and it lies within \<open>[0, 100]\<close> when the
  total of workgroups is not negative. This holds for every rounding of the arithmetic.
\<close>

theorem cu_utilization_bounds:
  assumes "rounding rnd"
    and "compute_metrics rnd parse_float r num_cus = Inr (time_us, total_wg, cu)"
  shows "(num_cus \<le> 0 \<longrightarrow> cu = Fin 0) \<and>
         (0 < num_cus \<and> total_wg \<noteq> NaN \<longrightarrow> fle cu (Fin 100)) \<and>
         (0 < num_cus \<and> fle (Fin 0) total_wg \<longrightarrow> fle (Fin 0) cu \<and> fle cu (Fin 100))"
proof -
  from compute_metrics_InrD [OF assms(2)] consider
      (nonpos) "num_cus \<le> 0" "cu = Fin 0"
    | (pos) q where "0 < num_cus" "\<bar>num_cus\<bar> < 2 ^ 1024 - 2 ^ 970"
        "fdiv rnd total_wg (rnd (of_int num_cus)) = Inr q"
        "cu = fmul rnd (py_min q (Fin 1)) (Fin 100)"
    by blast
  then show ?thesis
  proof cases
    case nonpos
    then show ?thesis by simp
  next
    case pos
    from pos(1,2) have "num_cus < 2 ^ 1024 - 2 ^ 970" by simp
    from float_of_int_positive [OF assms(1) pos(1) this]
    obtain c where c: "rnd (of_int num_cus) = Fin c" "1 \<le> c" by blast
    from c(2) have c0: "c \<noteq> 0" "0 < c" by simp_all
    from pos(3) c(1) have d: "fdiv rnd total_wg (Fin c) = Inr q" by simp
    have nn: "total_wg \<noteq> NaN" if "fle (Fin 0) total_wg"
      using that by (cases total_wg) auto
    have upper: "fle cu (Fin 100)" if "total_wg \<noteq> NaN"
      using capped_upper [OF assms(1) quotient_not_nan [OF assms(1) c0(1) d that]] pos(4)
      by simp
    have lower: "fle (Fin 0) cu" if "fle (Fin 0) total_wg"
      using capped_lower [OF assms(1) quotient_nonneg [OF assms(1) c0(2) d that]] pos(4)
      by simp
    show ?thesis using pos(1) upper lower nn by auto
  qed
qed

text \<open>
  The amended claim C3 on the scenario row: with 128 compute units the utilization is
  within the bounds, with no compute unit it is 0.
\<close>

theorem cu_utilization_bounds_witness:
  "rounding round_exact \<and>
   compute_metrics round_exact decimal_float scenario_row 128 = Inr (Fin 4, Fin 256, Fin 100) \<and>
   (0::int) < 128 \<and> Fin 256 \<noteq> NaN \<and> fle (Fin 0) (Fin 256) \<and>
   fle (Fin 0) (Fin 100) \<and> fle (Fin 100) (Fin 100) \<and>
   compute_metrics round_exact decimal_float scenario_row 0 = Inr (Fin 4, Fin 256, Fin 0) \<and>
   (0::int) \<le> 0 \<and> Fin 0 = Fin 0"
proof -
  have p: "(0::int) < 128" and z: "(0::int) \<le> 0" by simp_all
  have n: "Fin 256 \<noteq> NaN" and g: "fle (Fin 0) (Fin 256)" by simp_all
  from cu_utilization_bounds [OF rounding_exact scenario_metrics] p n g
  have a: "fle (Fin 0) (Fin 100) \<and> fle (Fin 100) (Fin 100)" by blast
  from cu_utilization_bounds [OF rounding_exact scenario_metrics_no_cus] z
  have b: "Fin 0 = Fin 0" by blast
  from rounding_exact scenario_metrics scenario_metrics_no_cus p z n g a b show ?thesis by blast
qed

text \<open>
  Claim C4, as stated, fails: \<open>compute_metrics\<close> does not return for every integer
  \<open>num_cus\<close>. For a positive \<open>num_cus\<close> it evaluates \<open>float(num_cus)\<close>, which raises
  \<open>OverflowError\<close> from \<open>2 ^ 1024 - 2 ^ 970\<close> on, and the exception reaches the caller.
\<close>

theorem compute_metrics_overflow_counterexample:
  "compute_metrics round_exact decimal_float scenario_row (2 ^ 1024) = Inl OverflowError"
  by (simp add: compute_metrics_def scenario_row_def row_get_default_def row_get_def
      safe_float_def decimal_float_examples py_max_def py_min_def fsub_def float_of_int_def
      round_exact_def Let_def)

text \<open>
  Claim C4, amended. For every trace row and every integer \<open>num_cus\<close> below
  \<open>2 ^ 1024 - 2 ^ 970\<close>, \<open>compute_metrics\<close> raises nothing, whatever the fields contain, and
  returns the triple \<open>(time_us, total_workgroups, cu_utilization_pct)\<close> of these floats,
  where the value of a field that is missing or fails to parse is \<open>0.0\<close> and every
  operation is the float operation:
  \<^item> \<open>time_us\<close> is the difference of the end and the start timestamp divided by \<open>1000.0\<close>,
    without any clamping;
  \<^item> each workgroup size \<open>v\<close> is replaced by \<open>max(v, 1.0)\<close> before it divides, and each of the
    three quotients \<open>qx\<close>, \<open>qy\<close>, \<open>qz\<close> of a grid size by its workgroup size is a float
    division: for finite sizes the real quotient, rounded and not truncated to an integer;
  \<^item> \<open>total_workgroups\<close> is \<open>(qx * qy) * qz\<close>;
  \<^item> the utilization is \<open>0.0\<close> for \<open>num_cus \<le> 0\<close> and
    \<open>min(total_workgroups / float(num_cus), 1.0) * 100.0\<close> otherwise.
  The parser is any function that reads the literal \<open>0\<close> as zero, as \<open>float\<close> does.
\<close>

theorem compute_metrics_triple:
  assumes rnd: "rounding rnd"
    and zero: "parse_float ''0'' = Some (Fin 0)"
    and range: "num_cus < 2 ^ 1024 - 2 ^ 970"
  shows "\<exists>time_us total_wg cu qx qy qz.
     compute_metrics rnd parse_float r num_cus = Inr (time_us, total_wg, cu) \<and>
     fdiv rnd (fsub rnd (field_or_zero parse_float r ''End_Timestamp'')
                        (field_or_zero parse_float r ''Start_Timestamp'')) (Fin 1000) = Inr time_us \<and>
     fdiv rnd (field_or_zero parse_float r ''Grid_Size_X'')
       (py_max (field_or_zero parse_float r ''Workgroup_Size_X'') (Fin 1)) = Inr qx \<and>
     fdiv rnd (field_or_zero parse_float r ''Grid_Size_Y'')
       (py_max (field_or_zero parse_float r ''Workgroup_Size_Y'') (Fin 1)) = Inr qy \<and>
     fdiv rnd (field_or_zero parse_float r ''Grid_Size_Z'')
       (py_max (field_or_zero parse_float r ''Workgroup_Size_Z'') (Fin 1)) = Inr qz \<and>
     total_wg = fmul rnd (fmul rnd qx qy) qz \<and>
     (num_cus \<le> 0 \<longrightarrow> cu = Fin 0) \<and>
     (0 < num_cus \<longrightarrow>
        (\<exists>q. fdiv rnd total_wg (rnd (of_int num_cus)) = Inr q \<and>
             cu = fmul rnd (py_min q (Fin 1)) (Fin 100))) \<and>
     (\<forall>s e d. field_or_zero parse_float r ''Start_Timestamp'' = Fin s \<and>
              field_or_zero parse_float r ''End_Timestamp'' = Fin e \<and>
              rnd (e - s) = Fin d \<longrightarrow> time_us = rnd (d / 1000)) \<and>
     (\<forall>g v. field_or_zero parse_float r ''Grid_Size_X'' = Fin g \<and>
            field_or_zero parse_float r ''Workgroup_Size_X'' = Fin v \<longrightarrow> qx = rnd (g / max v 1)) \<and>
     (\<forall>g v. field_or_zero parse_float r ''Grid_Size_Y'' = Fin g \<and>
            field_or_zero parse_float r ''Workgroup_Size_Y'' = Fin v \<longrightarrow> qy = rnd (g / max v 1)) \<and>
     (\<forall>g v. field_or_zero parse_float r ''Grid_Size_Z'' = Fin g \<and>
            field_or_zero parse_float r ''Workgroup_Size_Z'' = Fin v \<longrightarrow> qz = rnd (g / max v 1))"
proof -
  note sf = safe_float_field [of parse_float, OF zero]
  let ?F = "field_or_zero parse_float r"
  let ?wsx = "py_max (?F ''Workgroup_Size_X'') (Fin 1)"
  let ?wsy = "py_max (?F ''Workgroup_Size_Y'') (Fin 1)"
  let ?wsz = "py_max (?F ''Workgroup_Size_Z'') (Fin 1)"
  obtain time_us where
    t: "fdiv rnd (fsub rnd (?F ''End_Timestamp'') (?F ''Start_Timestamp'')) (Fin 1000) = Inr time_us"
    using fdiv_nonzero [of "Fin 1000"] by auto
  obtain qx where qx: "fdiv rnd (?F ''Grid_Size_X'') ?wsx = Inr qx"
    using fdiv_nonzero [OF py_max_one_nonzero] by blast
  obtain qy where qy: "fdiv rnd (?F ''Grid_Size_Y'') ?wsy = Inr qy"
    using fdiv_nonzero [OF py_max_one_nonzero] by blast
  obtain qz where qz: "fdiv rnd (?F ''Grid_Size_Z'') ?wsz = Inr qz"
    using fdiv_nonzero [OF py_max_one_nonzero] by blast
  let ?wg = "fmul rnd (fmul rnd qx qy) qz"
  have time: "time_us = rnd (d / 1000)"
    if "?F ''Start_Timestamp'' = Fin s" "?F ''End_Timestamp'' = Fin e" "rnd (e - s) = Fin d"
    for s e d
    using t that by (simp add: fsub_def)
  have quot: "q = rnd (g / max v 1)"
    if "fdiv rnd (Fin g) (py_max (Fin v) (Fin 1)) = Inr q" for q g v
  proof -
    have "max v 1 \<noteq> 0" by (simp add: max_def)
    with that show ?thesis by (simp add: py_max_one_finite)
  qed
  have fx: "qx = rnd (g / max v 1)"
    if "?F ''Grid_Size_X'' = Fin g" "?F ''Workgroup_Size_X'' = Fin v" for g v
    using qx that by (simp add: quot)
  have fy: "qy = rnd (g / max v 1)"
    if "?F ''Grid_Size_Y'' = Fin g" "?F ''Workgroup_Size_Y'' = Fin v" for g v
    using qy that by (simp add: quot)
  have fz: "qz = rnd (g / max v 1)"
    if "?F ''Grid_Size_Z'' = Fin g" "?F ''Workgroup_Size_Z'' = Fin v" for g v
    using qz that by (simp add: quot)
  show ?thesis
  proof (cases "num_cus \<le> 0")
    case True
    then have cm: "compute_metrics rnd parse_float r num_cus = Inr (time_us, ?wg, Fin 0)"
      using t qx qy qz by (simp add: compute_metrics_def sf Let_def)
    show ?thesis
      apply (rule exI [of _ time_us], rule exI [of _ ?wg], rule exI [of _ "Fin 0"])
      apply (rule exI [of _ qx], rule exI [of _ qy], rule exI [of _ qz])
      using cm True t qx qy qz time fx fy fz by auto
  next
    case False
    then have pos: "0 < num_cus" by simp
    from float_of_int_positive [OF rnd pos range]
    obtain c where c: "float_of_int rnd num_cus = Inr (Fin c)" "rnd (of_int num_cus) = Fin c"
      "1 \<le> c" by blast
    from c(3) have "Fin c \<noteq> Fin 0" by simp
    from fdiv_nonzero [OF this] obtain q where q: "fdiv rnd ?wg (Fin c) = Inr q"
      by blast
    let ?cu = "fmul rnd (py_min q (Fin 1)) (Fin 100)"
    have cm: "compute_metrics rnd parse_float r num_cus = Inr (time_us, ?wg, ?cu)"
      using t qx qy qz False c(1) q by (simp add: compute_metrics_def sf Let_def)
    from q c(2) have q': "fdiv rnd ?wg (rnd (of_int num_cus)) = Inr q" by simp
    show ?thesis
      apply (rule exI [of _ time_us], rule exI [of _ ?wg], rule exI [of _ ?cu])
      apply (rule exI [of _ qx], rule exI [of _ qy], rule exI [of _ qz])
      using cm pos t qx qy qz q' time fx fy fz by auto
  qed
qed

text \<open>
  The amended claim C4 on the scenario row with 128 compute units: the theorem gives
  4 microseconds, 256 workgroups and a utilization of 100.
\<close>

theorem compute_metrics_triple_witness:
  "rounding round_exact \<and> decimal_float ''0'' = Some (Fin 0) \<and>
   (128::int) < 2 ^ 1024 - 2 ^ 970 \<and>
   compute_metrics round_exact decimal_float scenario_row 128 = Inr (Fin 4, Fin 256, Fin 100)"
proof -
  have r: "(128::int) < 2 ^ 1024 - 2 ^ 970" by simp
  let ?F = "field_or_zero decimal_float scenario_row"
  from compute_metrics_triple [of round_exact decimal_float 128 scenario_row,
      OF rounding_exact decimal_float_0 r]
  obtain time_us total_wg cu qx qy qz where
    cm: "compute_metrics round_exact decimal_float scenario_row 128 = Inr (time_us, total_wg, cu)" and
    tot: "total_wg = fmul round_exact (fmul round_exact qx qy) qz" and
    u: "(0::int) < 128 \<longrightarrow>
        (\<exists>q. fdiv round_exact total_wg (round_exact (of_int 128)) = Inr q \<and>
             cu = fmul round_exact (py_min q (Fin 1)) (Fin 100))" and
    t: "\<forall>s e d. ?F ''Start_Timestamp'' = Fin s \<and> ?F ''End_Timestamp'' = Fin e \<and>
              round_exact (e - s) = Fin d \<longrightarrow> time_us = round_exact (d / 1000)" and
    x: "\<forall>g v. ?F ''Grid_Size_X'' = Fin g \<and> ?F ''Workgroup_Size_X'' = Fin v \<longrightarrow>
              qx = round_exact (g / max v 1)" and
    y: "\<forall>g v. ?F ''Grid_Size_Y'' = Fin g \<and> ?F ''Workgroup_Size_Y'' = Fin v \<longrightarrow>
              qy = round_exact (g / max v 1)" and
    z: "\<forall>g v. ?F ''Grid_Size_Z'' = Fin g \<and> ?F ''Workgroup_Size_Z'' = Fin v \<longrightarrow>
              qz = round_exact (g / max v 1)"
    by blast
  from t have t': "time_us = Fin 4" by (simp add: scenario_fields round_exact_def)
  from x have x': "qx = Fin 256" by (simp add: scenario_fields round_exact_def)
  from y have y': "qy = Fin 1" by (simp add: scenario_fields round_exact_def)
  from z have z': "qz = Fin 1" by (simp add: scenario_fields round_exact_def)
  from tot x' y' z' have w': "total_wg = Fin 256" by (simp add: round_exact_def)
  from u w' have u': "cu = Fin 100" by (auto simp: round_exact_def py_min_def)
  from cm t' w' u' rounding_exact decimal_float_0 r show ?thesis by simp
qed

section \<open>Discovery of variant directories\<close>

subsection \<open>The names that the pattern accepts\<close>





lemma variant_dir_match_scenario: "variant_dir_match ''p2048_ub512_b512'' = Some (2048, 512, 512)"
  by (simp add: variant_dir_match_def is_digit_def int_of_digits_def Let_def)


subsection \<open>The generator\<close>


text \<open>A root that cannot be listed yields nothing and prints one error.\<close>

lemma iter_variant_dirs_unlistable:
  assumes "listdir w root_dir = Inl e"
  shows "iter_variant_dirs w root_dir =
           ([], [if e = FileNotFoundError then RootNotFound root_dir else ListFailed root_dir e])"
  using assms by (simp add: iter_variant_dirs_def)



text \<open>
  Claim C9 holds for every name without a line feed, but not for all names: the anchor
  \<open>$\<close> of the pattern also matches before a line feed that ends the name. A directory
  whose name is \<open>p1_ub2_b3\<close> followed by a line feed is yielded with the triple
  \<open>(1, 2, 3)\<close>, although its name has an extra character.
\<close>

theorem iter_variant_dirs_trailing_newline:
  "iter_variant_dirs newline_world ''/r'' = ([(''/r/p1_ub2_b3'' @ [CHR 0x0A], 1, 2, 3)], [])"
  by (simp add: iter_variant_dirs_def newline_world_def path_join_def suffix_to_prefix
      variant_dir_match_def is_digit_def int_of_digits_def Let_def)

section \<open>The aggregate step\<close>

subsection \<open>One trace file\<close>

lemma process_file_no_occurrence:
  assumes "count_occurrences w csv_path ''Kernel_Name'' match_substring = Inr 0"
  shows "process_file rnd parse_float w num_cus match_substring vdir p ub b csv_path =
           ([], [NoOccurrences match_substring csv_path])"
  using assms by (simp add: process_file_def)


lemma example_count_none:
  "count_occurrences example_world example_path ''Kernel_Name'' ''zzz'' = Inr 0"
  by (simp add: count_occurrences_def example_world_def example_trace_def fieldnames_def
      dict_rows_def dict_row_def get_or_empty_def row_get_def)



subsection \<open>One output file\<close>

text \<open>
  Claim C2, as stated, fails in the number of columns: the header that the script writes
  has 19 columns, not 18. The 19 names are those listed in the claim, in that order. Here
  for the group of the example directory, with a marker that does not occur.
\<close>

theorem header_row_columns_counterexample:
  "write_group round_exact decimal_float example_world 100 ''zzz'' ''/r/p2_ub1_b1'' 2 1 1 ''p2_ub1_b1''
     ''/r/p2_ub1_b1/h'' [example_path] =
     (Some (''/r/p2_ub1_b1/h/p2_ub1_b1.csv'', [header_row]), [NoOccurrences ''zzz'' example_path]) \<and>
   length header_row = 19"
proof -
  have ow: "open_write example_world out_path = None" for out_path
    by (simp add: example_world_def)
  show ?thesis
    by (simp add: write_group_def ow path_join_def suffix_to_prefix
        process_file_no_occurrence [OF example_count_none] header_row_def)
qed

text \<open>
  Claim C2, amended. For every group whose output file can be opened for writing, the
  first record of the output file is the header row, which has 19 columns in this
  order: variant directory, p, ub, b, source file path, dispatch id, kernel id, kernel
  name, start timestamp, end timestamp, time\_us, the three workgroup sizes, the three
  grid sizes, total workgroups, utilization percentage.
\<close>

theorem header_row_first:
  assumes "open_write w (path_join subdir (variant_name @ ''.csv'')) = None"
  shows "(\<exists>rows. fst (write_group rnd parse_float w num_cus match_substring vdir p ub b
                       variant_name subdir files) =
                  Some (path_join subdir (variant_name @ ''.csv''), header_row # rows)) \<and>
         header_row = map Str
           [''variant_dir'', ''p'', ''ub'', ''b'', ''csv_path'',
            ''Dispatch_Id'', ''Kernel_Id'', ''Kernel_Name'',
            ''Start_Timestamp'', ''End_Timestamp'', ''time_us'',
            ''Workgroup_Size_X'', ''Workgroup_Size_Y'', ''Workgroup_Size_Z'',
            ''Grid_Size_X'', ''Grid_Size_Y'', ''Grid_Size_Z'',
            ''Total_Workgroups'', ''CU_Utilization_pct''] \<and>
         length header_row = 19"
  using assms by (simp add: write_group_def Let_def header_row_def)

text \<open>The amended claim C2 for the group of the example directory.\<close>

theorem header_row_first_witness:
  "open_write example_world (path_join ''/r/p2_ub1_b1/h'' (''p2_ub1_b1'' @ ''.csv'')) = None \<and>
   (\<exists>rows. fst (write_group round_exact decimal_float example_world 100 ''rms_norm_f32'' ''/r/p2_ub1_b1'' 2 1 1
                  ''p2_ub1_b1'' ''/r/p2_ub1_b1/h'' [example_path]) =
             Some (path_join ''/r/p2_ub1_b1/h'' (''p2_ub1_b1'' @ ''.csv''), header_row # rows)) \<and>
   length header_row = 19"
proof -
  have o: "open_write example_world (path_join ''/r/p2_ub1_b1/h'' (''p2_ub1_b1'' @ ''.csv'')) = None"
    by (simp add: example_world_def)
  from header_row_first [OF o, of round_exact decimal_float 100 "''rms_norm_f32''" "''/r/p2_ub1_b1''" 2 1 1
      "[example_path]"] o
  show ?thesis by blast
qed

subsection \<open>A second run\<close>
























end
